theory Spec2Isabelle
  imports Main
begin

section \<open>Python string operations used by the sources\<close>

text \<open>
  \<^verbatim>\<open>s.split(sep)\<close> for a one-character separator: the fields between the
  occurrences of the separator, empty fields included. The empty string has one
  (empty) field.
\<close>

fun str_split :: "char \<Rightarrow> string \<Rightarrow> string list" where
  "str_split sep [] = [[]]"
| "str_split sep (c # cs) =
     (if c = sep then [] # str_split sep cs
      else (case str_split sep cs of
              [] \<Rightarrow> [[c]]
            | f # fs \<Rightarrow> (c # f) # fs))"

text \<open>\<^verbatim>\<open>sep.join(fields)\<close>.\<close>

fun str_join :: "string \<Rightarrow> string list \<Rightarrow> string" where
  "str_join sep [] = []"
| "str_join sep [x] = x"
| "str_join sep (x # y # ys) = x @ sep @ str_join sep (y # ys)"

section \<open>The GPU probe: \<^verbatim>\<open>fmzip/pipelines/utils.py\<close>\<close>

text \<open>
  The module reads and writes two pieces of process state: the environment
  \<^verbatim>\<open>os.environ\<close> and the module-level flag \<^verbatim>\<open>nvml_is_initialized\<close>.
  The driver's answer to \<^verbatim>\<open>nvmlDeviceGetCount()\<close> is a parameter of the model.
\<close>

record probe_state =
  environ :: "string \<rightharpoonup> string"
  nvml_is_initialized :: bool

definition initialize :: "probe_state \<Rightarrow> probe_state" where
  "initialize s =
     (if \<not> nvml_is_initialized s
      then s\<lparr>environ := (environ s)(''CUDA_DEVICE_ORDER'' \<mapsto> ''PCI_BUS_ID''),
             nvml_is_initialized := True\<rparr>
      else s)"

text \<open>The source's \<^verbatim>\<open>_get_gpu_count\<close> (an Isabelle name cannot start with an underscore).\<close>

definition priv_get_gpu_count :: "nat \<Rightarrow> probe_state \<Rightarrow> nat \<times> probe_state" where
  "priv_get_gpu_count nvmlDeviceGetCount s = (nvmlDeviceGetCount, initialize s)"

definition get_available_gpus :: "nat \<Rightarrow> probe_state \<Rightarrow> nat list \<times> probe_state" where
  "get_available_gpus nvmlDeviceGetCount s =
     (case environ s ''CUDA_VISIBLE_DEVICES'' of
        None \<Rightarrow>
          (case priv_get_gpu_count nvmlDeviceGetCount s of (n, s') \<Rightarrow> ([0..<n], s'))
      | Some gpus \<Rightarrow>
          (let total_gpus = length (map (\<lambda>x. x) (str_split CHR '','' gpus))
           in ([0..<total_gpus], s)))"

definition get_gpu_count :: "nat \<Rightarrow> probe_state \<Rightarrow> nat \<times> probe_state" where
  "get_gpu_count nvmlDeviceGetCount s =
     (case get_available_gpus nvmlDeviceGetCount s of (gpus, s') \<Rightarrow> (length gpus, s'))"

text \<open>Two environments used as concrete inputs below.\<close>

definition env_unset :: probe_state where
  "env_unset = \<lparr>environ = Map.empty, nvml_is_initialized = False\<rparr>"

definition env_visible :: "string \<Rightarrow> probe_state" where
  "env_visible v =
     \<lparr>environ = [''CUDA_VISIBLE_DEVICES'' \<mapsto> v], nvml_is_initialized = False\<rparr>"

section \<open>Module trees: the part of \<^verbatim>\<open>torch.nn.Module\<close> the sources call\<close>

text \<open>
  A module carries a payload (its own parameters, opaque here) and its registered
  submodules, a Python dictionary from attribute name to module, kept in insertion
  order. The three library operations the sources call on a module
  (\<^verbatim>\<open>get_submodule\<close>, \<^verbatim>\<open>named_modules\<close>, attribute assignment of a module)
  follow the library's documented behaviour.
\<close>

datatype module = Module (payload: nat) (children: "(string \<times> module) list")

datatype error = KeyError string | AttributeError string

text \<open>\<^verbatim>\<open>d[k] = v\<close> on an insertion-ordered dictionary.\<close>

fun dict_set :: "(string \<times> 'v) list \<Rightarrow> string \<Rightarrow> 'v \<Rightarrow> (string \<times> 'v) list" where
  "dict_set [] k v = [(k, v)]"
| "dict_set ((k', v') # kvs) k v =
     (if k' = k then (k, v) # kvs else (k', v') # dict_set kvs k v)"

text \<open>\<^verbatim>\<open>setattr(obj, name, value)\<close> for a module value: registers the submodule.\<close>

definition setattr :: "module \<Rightarrow> string \<Rightarrow> module \<Rightarrow> module" where
  "setattr obj name val = Module (payload obj) (dict_set (children obj) name val)"

text \<open>
  \<^verbatim>\<open>get_submodule(target)\<close>: the module itself for the empty target; otherwise
  the target is split at the dots and each atom is looked up in turn, raising
  \<^verbatim>\<open>AttributeError\<close> at the first atom that is no submodule.
\<close>

fun walk_atoms :: "module \<Rightarrow> string list \<Rightarrow> error + module" where
  "walk_atoms m [] = Inr m"
| "walk_atoms m (item # atoms) =
     (case map_of (children m) item of
        None \<Rightarrow> Inl (AttributeError item)
      | Some sub \<Rightarrow> walk_atoms sub atoms)"

definition get_submodule :: "module \<Rightarrow> string \<Rightarrow> error + module" where
  "get_submodule self target =
     (if target = [] then Inr self else walk_atoms self (str_split CHR ''.'' target))"

text \<open>
  \<^verbatim>\<open>named_modules()\<close>: the module itself under the given prefix (the empty
  string at the root), then the submodules depth first, names joined by dots. The
  library skips a module object it has already yielded; in a tree every position is
  an object of its own, so nothing is skipped.
\<close>

fun named_modules :: "module \<Rightarrow> string \<Rightarrow> (string \<times> module) list" where
  "named_modules (Module w cs) prefix =
     (prefix, Module w cs) #
     concat (map (\<lambda>(name, sub).
                    named_modules sub (prefix @ (if prefix = [] then [] else ''.'') @ name))
                 cs)"

section \<open>Submodule resolution: \<^verbatim>\<open>_get_submodules\<close> and \<^verbatim>\<open>get_submodules\<close>\<close>

text \<open>
  \<^verbatim>\<open>_get_submodules\<close> of \<^verbatim>\<open>fmzip/pipelines/text_generation.py\<close>. The parent
  is resolved first, so its \<^verbatim>\<open>AttributeError\<close> wins over the target's.
\<close>

definition priv_get_submodules ::
  "module \<Rightarrow> string \<Rightarrow> error + (module \<times> module \<times> string)" where
  "priv_get_submodules mdl key =
     (case get_submodule mdl (str_join ''.'' (butlast (str_split CHR ''.'' key))) of
        Inl e \<Rightarrow> Inl e
      | Inr parent \<Rightarrow>
          (let target_name = last (str_split CHR ''.'' key)
           in case get_submodule mdl key of
                Inl e \<Rightarrow> Inl e
              | Inr target \<Rightarrow> Inr (parent, target, target_name)))"

text \<open>\<^verbatim>\<open>get_submodules\<close> of \<^verbatim>\<open>fmzip/pipelines/utils.py\<close>.\<close>

definition get_submodules ::
  "module \<Rightarrow> string \<Rightarrow> error + (module \<times> module \<times> string)" where
  "get_submodules mdl key =
     (case get_submodule mdl (str_join ''.'' (butlast (str_split CHR ''.'' key))) of
        Inl e \<Rightarrow> Inl e
      | Inr parent \<Rightarrow>
          (let target_name = last (str_split CHR ''.'' key)
           in case get_submodule mdl key of
                Inl e \<Rightarrow> Inl e
              | Inr target \<Rightarrow> Inr (parent, target, target_name)))"

text \<open>
  The triple as the specification words it: the parent at the dotted prefix of the
  key (everything before the last dot, nothing when there is no dot), the module at
  the key, and the last dot-separated component (everything after the last dot).
\<close>

definition dotted_prefix :: "string \<Rightarrow> string" where
  "dotted_prefix key = rev (drop 1 (dropWhile (\<lambda>c. c \<noteq> CHR ''.'') (rev key)))"

definition last_component :: "string \<Rightarrow> string" where
  "last_component key = rev (takeWhile (\<lambda>c. c \<noteq> CHR ''.'') (rev key))"

definition spec_submodules ::
  "module \<Rightarrow> string \<Rightarrow> error + (module \<times> module \<times> string)" where
  "spec_submodules mdl key =
     (case get_submodule mdl (dotted_prefix key) of
        Inl e \<Rightarrow> Inl e
      | Inr parent \<Rightarrow>
          (case get_submodule mdl key of
             Inl e \<Rightarrow> Inl e
           | Inr target \<Rightarrow> Inr (parent, target, last_component key)))"

section \<open>The serving pipeline: \<^verbatim>\<open>MixedPrecisionModel\<close>\<close>

text \<open>
  A request is a pair of a prompt and a delta identifier (\<^verbatim>\<open>x[0]\<close>, \<^verbatim>\<open>x[1]\<close>).
  A tokenized batch holds two tensors with one row per prompt; a tensor records the
  device it lives on, which \<^verbatim>\<open>.to(device)\<close> changes.
\<close>

type_synonym query = "string \<times> string"

datatype torch_device = CPU | CUDA

record tensor =
  rows :: "int list list"
  device :: torch_device

record batch =
  input_ids :: tensor
  attention_mask :: tensor

text \<open>
  A loaded delta checkpoint: the object \<^verbatim>\<open>from_compressed\<close> returns, with its
  \<^verbatim>\<open>.model\<close> attribute. \<open>obj_id\<close> is the identity of the Python object: the
  number of the adapter call that created it.
\<close>

record checkpoint =
  obj_id :: nat
  model :: module

text \<open>
  The collaborators outside the repository are parameters: the tokenizer (called
  on the list of prompts with padding), the base model's \<^verbatim>\<open>generate\<close> (called on
  the batch, reading the base model as bound at that moment), and the load adapter
  \<^verbatim>\<open>from_compressed(path, unpack)\<close>.
\<close>

type_synonym tokenizer = "string list \<Rightarrow> batch"
type_synonym generator = "module \<Rightarrow> batch \<Rightarrow> int list list"
type_synonym load_adapter = "string \<Rightarrow> bool \<Rightarrow> module"

text \<open>
  The pipeline object: \<^verbatim>\<open>self.base_model\<close> and \<^verbatim>\<open>self.model_pool\<close>, and two
  traces of the calls made to the collaborators: the paths given to the load
  adapter, and the forward passes run (the bound base model and the batch of each).
\<close>

record pipeline =
  base_model :: module
  model_pool :: "string \<rightharpoonup> checkpoint"
  adapter_calls :: "string list"
  forward_calls :: "(module \<times> batch) list"

definition to_device :: "tensor \<Rightarrow> torch_device \<Rightarrow> tensor" where
  "to_device t d = t\<lparr>device := d\<rparr>"

text \<open>
  \<^verbatim>\<open>prepare_batch\<close>: tokenizes the prompts in input order and moves both
  tensors to the GPU. The model and the \<^verbatim>\<open>lora_map\<close> arguments are not read
  (the source's use of them is commented out). There is no check of the number of
  inputs.
\<close>

definition prepare_batch ::
  "query list \<Rightarrow> tokenizer \<Rightarrow> module \<Rightarrow> 'a option \<Rightarrow> batch" where
  "prepare_batch inputs tokenizer mdl lora_map =
     (let batch = tokenizer (map (\<lambda>inp. fst inp) inputs);
          batch = batch\<lparr>input_ids := to_device (input_ids batch) CUDA\<rparr>;
          batch = batch\<lparr>attention_mask := to_device (attention_mask batch) CUDA\<rparr>
      in batch)"

text \<open>
  \<^verbatim>\<open>load_delta\<close>: calls the load adapter and stores the new object under the
  identifier, whatever the pool held before.
\<close>

definition load_delta :: "load_adapter \<Rightarrow> pipeline \<Rightarrow> string \<Rightarrow> pipeline" where
  "load_delta from_compressed self delta_model =
     self\<lparr>model_pool := (model_pool self)(delta_model \<mapsto>
              \<lparr>obj_id = length (adapter_calls self),
               model = from_compressed delta_model False\<rparr>),
          adapter_calls := adapter_calls self @ [delta_model]\<rparr>"

text \<open>
  The inner loop of \<^verbatim>\<open>generate\<close> over the named modules of one checkpoint:
  each key is resolved against the base model as it is at that moment, then the
  module is assigned to the attribute \<^verbatim>\<open>delta\<close> of the base model. An
  \<^verbatim>\<open>AttributeError\<close> leaves the loop with the base model as assigned so far.
\<close>

fun bind_modules :: "module \<Rightarrow> (string \<times> module) list \<Rightarrow> module \<times> error option" where
  "bind_modules base [] = (base, None)"
| "bind_modules base ((key, mdl) # rest) =
     (let key_to_base = key
      in case priv_get_submodules base key_to_base of
           Inl e \<Rightarrow> (base, Some e)
         | Inr base_module \<Rightarrow> bind_modules (setattr base ''delta'' mdl) rest)"

text \<open>
  The outer loop over the delta identifiers of the requests, one iteration per
  request: \<^verbatim>\<open>self.model_pool[delta]\<close> raises \<^verbatim>\<open>KeyError\<close> for an identifier
  that was not loaded.
\<close>

fun bind_deltas ::
  "(string \<rightharpoonup> checkpoint) \<Rightarrow> module \<Rightarrow> string list \<Rightarrow> module \<times> error option" where
  "bind_deltas pool base [] = (base, None)"
| "bind_deltas pool base (delta # rest) =
     (case pool delta of
        None \<Rightarrow> (base, Some (KeyError delta))
      | Some ckpt \<Rightarrow>
          (case bind_modules base (named_modules (model ckpt) []) of
             (base', Some e) \<Rightarrow> (base', Some e)
           | (base', None) \<Rightarrow> bind_deltas pool base' rest))"

text \<open>
  \<^verbatim>\<open>generate\<close>: prepares the batch, runs the two loops, then calls the base
  model's \<^verbatim>\<open>generate\<close> once on the whole batch and returns its output. The
  pipeline after the call is returned in both outcomes: an exception leaves the
  assignments made before it in place.
\<close>

definition generate ::
  "tokenizer \<Rightarrow> generator \<Rightarrow> pipeline \<Rightarrow> query list \<Rightarrow> pipeline \<times> (error + int list list)" where
  "generate tokenizer base_generate self queries =
     (let batch = prepare_batch queries tokenizer (base_model self) (None :: unit option);
          deltas = map (\<lambda>x. snd x) queries
      in case bind_deltas (model_pool self) (base_model self) deltas of
           (base', Some e) \<Rightarrow> (self\<lparr>base_model := base'\<rparr>, Inl e)
         | (base', None) \<Rightarrow>
             (let output = base_generate base' batch
              in (self\<lparr>base_model := base',
                       forward_calls := forward_calls self @ [(base', batch)]\<rparr>,
                  Inr output)))"

section \<open>Concrete collaborators and inputs\<close>

text \<open>
  A tokenizer with one token per prompt (the prompt's length), a generator that
  appends one token to every row (the number of submodules of the bound base
  model), and a load adapter whose checkpoints have one layer.
\<close>

definition tokenizer0 :: tokenizer where
  "tokenizer0 prompts =
     \<lparr>input_ids = \<lparr>rows = map (\<lambda>p. [int (length p)]) prompts, device = CPU\<rparr>,
      attention_mask = \<lparr>rows = map (\<lambda>p. [1]) prompts, device = CPU\<rparr>\<rparr>"

definition generator0 :: generator where
  "generator0 base b = map (\<lambda>r. r @ [int (length (children base))]) (rows (input_ids b))"

definition from_compressed0 :: load_adapter where
  "from_compressed0 path unpack = Module (length path) [(''layer'', Module (length path) [])]"


definition base0 :: module where
  "base0 = Module 0 [(''layer'', Module 7 [])]"

definition pipeline0 :: pipeline where
  "pipeline0 = \<lparr>base_model = base0, model_pool = Map.empty,
                 adapter_calls = [], forward_calls = []\<rparr>"

text \<open>A load adapter whose checkpoints are of another architecture.\<close>

definition from_compressed1 :: load_adapter where
  "from_compressed1 path unpack = Module (length path) [(''mlp'', Module (length path) [])]"

text \<open>
  The pipeline after one, two and three loads of distinct identifiers, the pipeline
  holding a checkpoint of the other architecture, and two request lists: four
  requests over two delta identifiers, five requests over one.
\<close>

definition pipeline1 :: pipeline where
  "pipeline1 = load_delta from_compressed0 pipeline0 ''d1''"

definition pipeline2 :: pipeline where
  "pipeline2 = load_delta from_compressed0 pipeline1 ''d22''"

definition pipeline3 :: pipeline where
  "pipeline3 = load_delta from_compressed0 pipeline2 ''d333''"

definition pipeline_mismatch :: pipeline where
  "pipeline_mismatch = load_delta from_compressed1 pipeline0 ''dx''"

definition mixed_queries :: "query list" where
  "mixed_queries = [(''a'', ''d1''), (''bb'', ''d22''), (''ccc'', ''d1''), (''dddd'', ''d22'')]"

definition same_delta_queries :: "query list" where
  "same_delta_queries =
     [(''a'', ''d1''), (''bb'', ''d1''), (''ccc'', ''d1''), (''dddd'', ''d1''), (''eeeee'', ''d1'')]"


section \<open>When a checkpoint fits the base model\<close>

text \<open>
  A key resolves when \<^verbatim>\<open>_get_submodules\<close> returns for it. A checkpoint matches
  the topology of the base model when every name of its module tree resolves in the
  base model and none starts with the atom \<^verbatim>\<open>delta\<close>, the attribute that the
  binding loop itself assigns.
\<close>

definition resolves :: "module \<Rightarrow> string \<Rightarrow> bool" where
  "resolves base key = (case priv_get_submodules base key of Inl e \<Rightarrow> False | Inr r \<Rightarrow> True)"

definition first_atom :: "string \<Rightarrow> string" where
  "first_atom key = hd (str_split CHR ''.'' key)"



section \<open>Facts about splitting and joining\<close>

lemma str_split_not_Nil: "str_split sep s \<noteq> []"
  by (induction s) (auto split: list.splits)

lemma str_split_no_sep: "sep \<notin> set f \<Longrightarrow> str_split sep f = [f]"
  by (induction f) auto

lemma str_split_field_append:
  "sep \<notin> set f \<Longrightarrow> str_split sep (f @ sep # rest) = f # str_split sep rest"
  by (induction f) auto

lemma str_split_join:
  "flds \<noteq> [] \<Longrightarrow> \<forall>f \<in> set flds. sep \<notin> set f \<Longrightarrow>
   str_split sep (str_join [sep] flds) = flds"
proof (induction "[sep]" flds rule: str_join.induct)
  case 1
  then show ?case by simp
next
  case (2 x)
  then show ?case by (simp add: str_split_no_sep)
next
  case (3 x y ys)
  then show ?case by (simp add: str_split_field_append)
qed

lemma str_join_split: "str_join [sep] (str_split sep s) = s"
proof (induction s)
  case Nil
  then show ?case by simp
next
  case (Cons c s)
  then show ?case
    by (cases "str_split sep s"; cases "tl (str_split sep s)") (auto simp: str_split_not_Nil)
qed

lemma str_split_snoc_field:
  "sep \<notin> set b \<Longrightarrow> str_split sep (a @ sep # b) = str_split sep a @ [b]"
  by (induction a) (auto simp: str_split_no_sep str_split_not_Nil split: list.splits)

lemma dotted_prefix_eq:
  "str_join ''.'' (butlast (str_split CHR ''.'' key)) = dotted_prefix key"
proof (cases "CHR ''.'' \<in> set key")
  case False
  then have dw: "dropWhile (\<lambda>c. c \<noteq> CHR ''.'') (rev key) = []"
    by auto
  show ?thesis
    unfolding dotted_prefix_def dw using False by (simp add: str_split_no_sep)
next
  case True
  then obtain a b where key: "key = a @ CHR ''.'' # b" and b: "CHR ''.'' \<notin> set b"
    using split_list_last [of "CHR ''.''" key] by blast
  have "dropWhile (\<lambda>c. c \<noteq> CHR ''.'') (rev b @ CHR ''.'' # rev a) = CHR ''.'' # rev a"
    using b by (auto simp: dropWhile_append3)
  then have "dotted_prefix key = a" by (simp add: dotted_prefix_def key)
  moreover have "str_join ''.'' (butlast (str_split CHR ''.'' key)) = a"
    using b by (simp add: key str_split_snoc_field str_join_split)
  ultimately show ?thesis by simp
qed

lemma last_component_eq:
  "last (str_split CHR ''.'' key) = last_component key"
proof (cases "CHR ''.'' \<in> set key")
  case False
  then have tw: "takeWhile (\<lambda>c. c \<noteq> CHR ''.'') (rev key) = rev key"
    by auto
  show ?thesis
    unfolding last_component_def tw using False by (simp add: str_split_no_sep)
next
  case True
  then obtain a b where key: "key = a @ CHR ''.'' # b" and b: "CHR ''.'' \<notin> set b"
    using split_list_last [of "CHR ''.''" key] by blast
  have "takeWhile (\<lambda>c. c \<noteq> CHR ''.'') (rev b @ CHR ''.'' # rev a) = rev b"
    using b by (auto simp: takeWhile_tail)
  then have "last_component key = b" by (simp add: last_component_def key)
  moreover have "last (str_split CHR ''.'' key) = b"
    using b by (simp add: key str_split_snoc_field)
  ultimately show ?thesis by simp
qed

section \<open>Facts about attribute assignment and resolution\<close>

lemma dict_set_overwrite: "dict_set (dict_set cs k v) k w = dict_set cs k w"
  by (induction cs) auto

lemma setattr_overwrite: "setattr (setattr b k v) k w = setattr b k w"
  by (simp add: setattr_def dict_set_overwrite)

lemma map_of_dict_set: "map_of (dict_set cs k v) k' = (if k' = k then Some v else map_of cs k')"
  by (induction cs) auto

lemma map_of_setattr_same: "map_of (children (setattr b k v)) k = Some v"
  by (simp add: setattr_def map_of_dict_set)

lemma setattr_other_attributes:
  "payload (setattr b k v) = payload b"
  "name \<noteq> k \<Longrightarrow> map_of (children (setattr b k v)) name = map_of (children b) name"
  by (simp_all add: setattr_def map_of_dict_set)

lemma walk_atoms_setattr_other:
  "item \<noteq> k \<Longrightarrow> walk_atoms (setattr b k v) (item # atoms) = walk_atoms b (item # atoms)"
  by (simp add: setattr_def map_of_dict_set)

lemma named_modules_root: "\<exists>rest. named_modules m [] = ([], m) # rest"
  by (cases m) simp

lemma walk_atoms_error: "walk_atoms m atoms = Inl e \<Longrightarrow> \<exists>item. e = AttributeError item"
  by (induction atoms arbitrary: m) (auto split: option.splits)

lemma get_submodule_error: "get_submodule m t = Inl e \<Longrightarrow> \<exists>item. e = AttributeError item"
  by (auto simp: get_submodule_def walk_atoms_error split: if_splits)

lemma priv_get_submodules_error:
  "priv_get_submodules m key = Inl e \<Longrightarrow> \<exists>item. e = AttributeError item"
  by (auto simp: priv_get_submodules_def Let_def split: sum.splits dest: get_submodule_error)

lemma get_submodule_setattr_other:
  assumes "first_atom t \<noteq> k"
  shows "isl (get_submodule (setattr b k v) t) = isl (get_submodule b t)"
proof (cases "t = []")
  case True
  then show ?thesis by (simp add: get_submodule_def)
next
  case False
  obtain item atoms where sp: "str_split CHR ''.'' t = item # atoms"
    using str_split_not_Nil [of "CHR ''.''" t] by (cases "str_split CHR ''.'' t") auto
  with assms have "item \<noteq> k" by (simp add: first_atom_def)
  then have "walk_atoms (setattr b k v) (item # atoms) = walk_atoms b (item # atoms)"
    by (rule walk_atoms_setattr_other)
  then show ?thesis
    using False by (simp add: get_submodule_def sp del: walk_atoms.simps)
qed

lemma first_atom_dotted_prefix:
  "dotted_prefix key \<noteq> [] \<Longrightarrow> first_atom (dotted_prefix key) = first_atom key"
proof (cases "CHR ''.'' \<in> set key")
  case False
  assume ne: "dotted_prefix key \<noteq> []"
  from False have dw: "dropWhile (\<lambda>c. c \<noteq> CHR ''.'') (rev key) = []"
    by auto
  have "dotted_prefix key = []" unfolding dotted_prefix_def dw by simp
  with ne show ?thesis by simp
next
  case True
  then obtain a b where key: "key = a @ CHR ''.'' # b" and b: "CHR ''.'' \<notin> set b"
    using split_list_last [of "CHR ''.''" key] by blast
  have "dropWhile (\<lambda>c. c \<noteq> CHR ''.'') (rev b @ CHR ''.'' # rev a) = CHR ''.'' # rev a"
    using b by (auto simp: dropWhile_append3)
  then have dp: "dotted_prefix key = a" by (simp add: dotted_prefix_def key)
  have "str_split CHR ''.'' key = str_split CHR ''.'' a @ [b]"
    using b by (simp add: key str_split_snoc_field)
  then show ?thesis
    by (simp add: first_atom_def dp str_split_not_Nil)
qed

lemma resolves_setattr_other:
  assumes "first_atom key \<noteq> k"
  shows "resolves (setattr b k v) key = resolves b key"
proof -
  have target: "isl (get_submodule (setattr b k v) key) = isl (get_submodule b key)"
    using assms by (rule get_submodule_setattr_other)
  have parent: "isl (get_submodule (setattr b k v) (dotted_prefix key))
      = isl (get_submodule b (dotted_prefix key))"
  proof (cases "dotted_prefix key = []")
    case True
    then show ?thesis by (simp add: get_submodule_def)
  next
    case False
    then have "first_atom (dotted_prefix key) \<noteq> k"
      using assms by (simp add: first_atom_dotted_prefix)
    then show ?thesis by (rule get_submodule_setattr_other)
  qed
  have res: "resolves m key = (\<not> isl (get_submodule m (dotted_prefix key)) \<and> \<not> isl (get_submodule m key))"
    for m
    by (auto simp: resolves_def priv_get_submodules_def Let_def dotted_prefix_eq
        split: sum.splits)
  show ?thesis by (simp add: res target parent)
qed

lemma resolves_root: "resolves b []"
  by (simp add: resolves_def priv_get_submodules_def get_submodule_def)


section \<open>Facts about the binding loops\<close>

text \<open>
  Every assignment of the two loops goes to the same attribute of the base model, so
  a run of the loops amounts to at most one assignment: that of the last module
  reached.
\<close>

lemma bind_modules_bound:
  "bind_modules base nm = (base', None) \<Longrightarrow> nm \<noteq> [] \<Longrightarrow>
   base' = setattr base ''delta'' (snd (last nm))"
proof (induction nm arbitrary: base)
  case Nil
  then show ?case by simp
next
  case (Cons a nm)
  obtain key mdl where a: "a = (key, mdl)" by (cases a)
  from Cons.prems(1) have step: "bind_modules (setattr base ''delta'' mdl) nm = (base', None)"
    by (auto simp: a split: sum.splits)
  show ?case
  proof (cases nm)
    case Nil
    with step show ?thesis by (simp add: a)
  next
    case (Cons b nm')
    then have "nm \<noteq> []" by simp
    from Cons.IH [OF step this] show ?thesis
      by (simp add: setattr_overwrite Cons)
  qed
qed

lemma bind_deltas_bound:
  "bind_deltas pool base ds = (base', None) \<Longrightarrow> ds \<noteq> [] \<Longrightarrow>
   pool (last ds) = Some ckpt \<Longrightarrow>
   base' = setattr base ''delta'' (snd (last (named_modules (model ckpt) [])))"
proof (induction ds arbitrary: base)
  case Nil
  then show ?case by simp
next
  case (Cons d ds)
  from Cons.prems(1) obtain c base1 where
    c: "pool d = Some c" and
    inner: "bind_modules base (named_modules (model c) []) = (base1, None)" and
    rest: "bind_deltas pool base1 ds = (base', None)"
    by (auto split: option.splits prod.splits)
  have ne: "named_modules (model c) [] \<noteq> []"
    using named_modules_root [of "model c"] by auto
  have b1: "base1 = setattr base ''delta'' (snd (last (named_modules (model c) [])))"
    using bind_modules_bound [OF inner ne] .
  show ?case
  proof (cases ds)
    case Nil
    with rest Cons.prems(3) c b1 show ?thesis by simp
  next
    case (Cons d' ds')
    then have "ds \<noteq> []" by simp
    moreover from Cons Cons.prems(3) have "pool (last ds) = Some ckpt" by simp
    ultimately have "base' = setattr base1 ''delta'' (snd (last (named_modules (model ckpt) [])))"
      using Cons.IH [OF rest] by blast
    then show ?thesis by (simp add: b1 setattr_overwrite)
  qed
qed

lemma bind_modules_touches_delta_only:
  "bind_modules base nm = (b', e) \<Longrightarrow> b' = base \<or> (\<exists>v. b' = setattr base ''delta'' v)"
proof (induction nm arbitrary: base)
  case Nil
  then show ?case by simp
next
  case (Cons a nm)
  obtain k1 m1 where a: "a = (k1, m1)" by (cases a)
  show ?case
  proof (cases "priv_get_submodules base k1")
    case (Inl x)
    with Cons.prems show ?thesis by (simp add: a)
  next
    case (Inr r)
    with Cons.prems have "bind_modules (setattr base ''delta'' m1) nm = (b', e)"
      by (simp add: a)
    from Cons.IH [OF this] show ?thesis
      by (auto simp: setattr_overwrite)
  qed
qed

lemma bind_deltas_touches_delta_only:
  "bind_deltas pool base ds = (b', e) \<Longrightarrow> b' = base \<or> (\<exists>v. b' = setattr base ''delta'' v)"
proof (induction ds arbitrary: base)
  case Nil
  then show ?case by simp
next
  case (Cons d ds)
  show ?case
  proof (cases "pool d")
    case None
    with Cons.prems show ?thesis by simp
  next
    case (Some c)
    obtain b1 r where inner: "bind_modules base (named_modules (model c) []) = (b1, r)"
      by (cases "bind_modules base (named_modules (model c) [])")
    from bind_modules_touches_delta_only [OF inner]
    have b1: "b1 = base \<or> (\<exists>v. b1 = setattr base ''delta'' v)" .
    show ?thesis
    proof (cases r)
      case None
      with Cons.prems Some inner have "bind_deltas pool b1 ds = (b', e)" by simp
      from Cons.IH [OF this] b1 show ?thesis by (auto simp: setattr_overwrite)
    next
      case (Some err)
      with Cons.prems \<open>pool d = Some c\<close> inner have "b' = b1" by simp
      with b1 show ?thesis by simp
    qed
  qed
qed



lemma bind_modules_fails:
  "(key, m) \<in> set nm \<Longrightarrow> \<not> resolves base key \<Longrightarrow> first_atom key \<noteq> ''delta'' \<Longrightarrow>
   \<exists>b' item. bind_modules base nm = (b', Some (AttributeError item)) \<and>
     (b' = base \<or> (\<exists>m' \<in> snd ` set nm. b' = setattr base ''delta'' m'))"
proof (induction nm arbitrary: base)
  case Nil
  then show ?case by simp
next
  case (Cons a nm)
  obtain k1 m1 where a: "a = (k1, m1)" by (cases a)
  show ?case
  proof (cases "priv_get_submodules base k1")
    case (Inl e)
    then obtain item where "e = AttributeError item"
      using priv_get_submodules_error by blast
    with Inl show ?thesis by (simp add: a)
  next
    case (Inr r)
    then have "resolves base k1" by (simp add: resolves_def)
    with Cons.prems have mem: "(key, m) \<in> set nm" by (auto simp: a)
    let ?b1 = "setattr base ''delta'' m1"
    have "\<not> resolves ?b1 key"
      using Cons.prems by (simp add: resolves_setattr_other)
    from Cons.IH [OF mem this Cons.prems(3)]
    obtain b' item where res: "bind_modules ?b1 nm = (b', Some (AttributeError item))"
      and b': "b' = ?b1 \<or> (\<exists>m' \<in> snd ` set nm. b' = setattr ?b1 ''delta'' m')"
      by blast
    from b' have "\<exists>m' \<in> snd ` set (a # nm). b' = setattr base ''delta'' m'"
      by (auto simp: a setattr_overwrite)
    with res Inr show ?thesis by (simp add: a)
  qed
qed

lemma bind_checkpoint_fails:
  assumes "(key, m) \<in> set (named_modules mdl [])" "\<not> resolves base key"
    "first_atom key \<noteq> ''delta''"
  shows "\<exists>item m'. m' \<in> snd ` set (named_modules mdl []) \<and>
     bind_modules base (named_modules mdl []) = (setattr base ''delta'' m', Some (AttributeError item))"
proof -
  obtain rest where nm: "named_modules mdl [] = ([], mdl) # rest"
    using named_modules_root by blast
  from assms(1,2) have mem: "(key, m) \<in> set rest"
    using resolves_root [of base] by (auto simp: nm)
  let ?b1 = "setattr base ''delta'' mdl"
  have "\<not> resolves ?b1 key" using assms by (simp add: resolves_setattr_other)
  from bind_modules_fails [OF mem this assms(3)]
  obtain b' item where res: "bind_modules ?b1 rest = (b', Some (AttributeError item))"
    and b': "b' = ?b1 \<or> (\<exists>m' \<in> snd ` set rest. b' = setattr ?b1 ''delta'' m')"
    by blast
  from b' obtain m' where "m' \<in> snd ` set (named_modules mdl [])" "b' = setattr base ''delta'' m'"
    by (auto simp: nm setattr_overwrite)
  moreover have "bind_modules base (named_modules mdl []) = bind_modules ?b1 rest"
    using resolves_root [of base] by (simp add: nm resolves_def split: sum.splits)
  ultimately show ?thesis using res by auto
qed

lemma generate_effect:
  assumes "generate tok gen self queries = (self', Inr out)"
  shows "model_pool self' = model_pool self"
    and "forward_calls self' = forward_calls self @ [(base_model self', prepare_batch queries tok (base_model self) (None :: unit option))]"
    and "queries = [] \<Longrightarrow> base_model self' = base_model self"
    and "queries \<noteq> [] \<Longrightarrow> model_pool self (snd (last queries)) = Some ckpt \<Longrightarrow>
       base_model self' = setattr (base_model self) ''delta'' (snd (last (named_modules (model ckpt) [])))"
proof -
  obtain b' where bd: "bind_deltas (model_pool self) (base_model self) (map snd queries) = (b', None)"
    and self': "self' = self\<lparr>base_model := b', forward_calls := forward_calls self @ [(b', prepare_batch queries tok (base_model self) (None :: unit option))]\<rparr>"
    using assms by (auto simp: generate_def Let_def split: prod.splits option.splits)
  show "model_pool self' = model_pool self" by (simp add: self')
  show "forward_calls self' = forward_calls self @ [(base_model self', prepare_batch queries tok (base_model self) (None :: unit option))]"
    by (simp add: self')
  show "queries = [] \<Longrightarrow> base_model self' = base_model self"
    using bd by (simp add: self')
  show "base_model self' = setattr (base_model self) ''delta'' (snd (last (named_modules (model ckpt) [])))"
    if "queries \<noteq> []" "model_pool self (snd (last queries)) = Some ckpt"
    using bind_deltas_bound [OF bd] that by (simp add: self' last_map)
qed

text \<open>The unfolding rules that evaluate the concrete pipelines.\<close>

lemmas sample_defs = pipeline3_def pipeline_mismatch_def from_compressed1_def same_delta_queries_def pipeline2_def pipeline1_def pipeline0_def base0_def load_delta_def
  from_compressed0_def tokenizer0_def generator0_def generate_def prepare_batch_def
  to_device_def priv_get_submodules_def get_submodule_def setattr_def Let_def mixed_queries_def

section \<open>The GPU probe honours the visibility variable\<close>

text \<open>
  Claim C8. When \<^verbatim>\<open>CUDA_VISIBLE_DEVICES\<close> is set to a comma-separated list of
  \<open>n\<close> fields (the join of \<open>n \<ge> 1\<close> comma-free fields), \<^verbatim>\<open>get_available_gpus\<close>
  returns \<open>[0, ..., n-1]\<close>; when it is unset, it returns \<open>[0, ..., k-1]\<close> for
  the driver's device count \<open>k\<close>; and \<^verbatim>\<open>get_gpu_count\<close> is the length of that
  sequence in every environment.
\<close>

theorem get_available_gpus_honours_visibility:
  "(flds \<noteq> [] \<and> (\<forall>f \<in> set flds. CHR '','' \<notin> set f) \<and>
    environ s ''CUDA_VISIBLE_DEVICES'' = Some (str_join '','' flds)
      \<longrightarrow> fst (get_available_gpus k s) = [0..<length flds]) \<and>
   (environ s ''CUDA_VISIBLE_DEVICES'' = None
      \<longrightarrow> fst (get_available_gpus k s) = [0..<k]) \<and>
   fst (get_gpu_count k s) = length (fst (get_available_gpus k s))"
proof (intro conjI impI)
  assume h: "flds \<noteq> [] \<and> (\<forall>f \<in> set flds. CHR '','' \<notin> set f) \<and>
    environ s ''CUDA_VISIBLE_DEVICES'' = Some (str_join '','' flds)"
  then have "str_split CHR '','' (str_join '','' flds) = flds"
    using str_split_join [of flds "CHR '',''"] by simp
  with h show "fst (get_available_gpus k s) = [0..<length flds]"
    by (simp add: get_available_gpus_def)
next
  assume "environ s ''CUDA_VISIBLE_DEVICES'' = None"
  then show "fst (get_available_gpus k s) = [0..<k]"
    by (simp add: get_available_gpus_def priv_get_gpu_count_def)
next
  show "fst (get_gpu_count k s) = length (fst (get_available_gpus k s))"
    by (simp add: get_gpu_count_def split: prod.splits)
qed

theorem get_available_gpus_honours_visibility_witness:
  "fst (get_available_gpus 8 (env_visible ''0,1,3'')) = [0, 1, 2] \<and>
   fst (get_gpu_count 8 (env_visible ''0,1,3'')) = 3 \<and>
   fst (get_available_gpus 4 env_unset) = [0, 1, 2, 3] \<and>
   fst (get_gpu_count 4 env_unset) = 4"
proof -
  let ?fs = "[''0'', ''1'', ''3'']"
  let ?s = "env_visible ''0,1,3''"
  note set_inst = get_available_gpus_honours_visibility [of ?fs ?s 8]
  note unset_inst = get_available_gpus_honours_visibility [of "[]" env_unset 4]
  have pre: "?fs \<noteq> [] \<and> (\<forall>f \<in> set ?fs. CHR '','' \<notin> set f) \<and>
      environ ?s ''CUDA_VISIBLE_DEVICES'' = Some (str_join '','' ?fs)"
    by (simp add: env_visible_def)
  have unset: "environ env_unset ''CUDA_VISIBLE_DEVICES'' = None"
    by (simp add: env_unset_def)
  have gpus3: "fst (get_available_gpus 8 ?s) = [0..<length ?fs]"
    using set_inst pre by blast
  have count3: "fst (get_gpu_count 8 ?s) = length (fst (get_available_gpus 8 ?s))"
    using set_inst by blast
  have gpus4: "fst (get_available_gpus 4 env_unset) = [0..<4]"
    using unset_inst unset by blast
  have count4: "fst (get_gpu_count 4 env_unset)
      = length (fst (get_available_gpus 4 env_unset))"
    using unset_inst by blast
  have upt3: "[0..<length ?fs] = [0, 1, 2::nat]"
    by (simp add: upt_rec)
  have upt4: "[0..<4] = [0, 1, 2, 3::nat]"
    by (simp add: upt_rec)
  show ?thesis
    unfolding count3 count4 gpus3 gpus4 upt3 upt4 by simp
qed

text \<open>
  Claim C10. When \<^verbatim>\<open>CUDA_VISIBLE_DEVICES\<close> is the empty string,
  \<^verbatim>\<open>get_available_gpus\<close> returns the one-element sequence \<open>[0]\<close>, not the empty
  sequence: splitting the empty string on commas yields one empty field.
\<close>

theorem get_available_gpus_empty_string:
  "str_split CHR '','' '''' = ['''']  \<and>
   fst (get_available_gpus k (env_visible '''')) = [0] \<and>
   fst (get_available_gpus k (env_visible '''')) \<noteq> [] \<and>
   fst (get_gpu_count k (env_visible '''')) = 1"
  by (simp add: get_available_gpus_def get_gpu_count_def env_visible_def)

section \<open>The two submodule helpers agree\<close>

text \<open>
  Claim C9. \<^verbatim>\<open>_get_submodules\<close> of the serving pipeline and
  \<^verbatim>\<open>get_submodules\<close> of the utilities module compute the same function, and
  that function is the triple of the parent at the dotted prefix of the key, the
  module at the key and the last dot-separated component of the key (or the
  \<^verbatim>\<open>AttributeError\<close> of the first of the two resolutions that fails).
\<close>

theorem get_submodules_agree:
  "priv_get_submodules mdl key = get_submodules mdl key \<and>
   get_submodules mdl key = spec_submodules mdl key"
  unfolding priv_get_submodules_def get_submodules_def spec_submodules_def Let_def
    dotted_prefix_eq last_component_eq
  by simp

section \<open>Binding is never undone\<close>

text \<open>
  Claim C1, as the code has it. \<^verbatim>\<open>generate\<close> has no unbind step. After a
  \<^verbatim>\<open>generate\<close> that returns, the base model is the base model before the call
  with one attribute assigned: \<^verbatim>\<open>delta\<close>, which holds the last named module of
  the checkpoint of the last request. Its payload and every other attribute are as
  before, and with no request at all the base model is unchanged.
\<close>

theorem generate_never_unbinds:
  assumes "generate tok gen self queries = (self', Inr out)"
  shows "(queries = [] \<longrightarrow> base_model self' = base_model self) \<and>
    (\<forall>ckpt. queries \<noteq> [] \<and> model_pool self (snd (last queries)) = Some ckpt \<longrightarrow>
       base_model self'
         = setattr (base_model self) ''delta'' (snd (last (named_modules (model ckpt) [])))) \<and>
    payload (base_model self') = payload (base_model self) \<and>
    (\<forall>name. name \<noteq> ''delta'' \<longrightarrow>
       map_of (children (base_model self')) name = map_of (children (base_model self)) name)"
proof -
  obtain b' where bd: "bind_deltas (model_pool self) (base_model self) (map snd queries) = (b', None)"
    and b': "base_model self' = b'"
    using assms by (auto simp: generate_def Let_def split: prod.splits option.splits)
  from bind_deltas_touches_delta_only [OF bd]
  have only: "b' = base_model self \<or> (\<exists>v. b' = setattr (base_model self) ''delta'' v)" .
  have "queries = [] \<longrightarrow> base_model self' = base_model self"
    using generate_effect(3) [OF assms] by simp
  moreover have "\<forall>ckpt. queries \<noteq> [] \<and> model_pool self (snd (last queries)) = Some ckpt \<longrightarrow>
       base_model self'
         = setattr (base_model self) ''delta'' (snd (last (named_modules (model ckpt) [])))"
    using generate_effect(4) [OF assms] by blast
  moreover have "payload (base_model self') = payload (base_model self)"
    using only by (auto simp: b' setattr_other_attributes)
  moreover have "\<forall>name. name \<noteq> ''delta'' \<longrightarrow>
       map_of (children (base_model self')) name = map_of (children (base_model self)) name"
    using only by (auto simp: b' setattr_other_attributes)
  ultimately show ?thesis by blast
qed

theorem generate_never_unbinds_witness:
  "base_model (fst (generate tokenizer0 generator0 pipeline1 [(''hi'', ''d1'')]))
     = setattr (base_model pipeline1) ''delta'' (Module 2 []) \<and>
   payload (base_model (fst (generate tokenizer0 generator0 pipeline1 [(''hi'', ''d1'')]))) = 0"
proof -
  let ?ckpt = "\<lparr>obj_id = 0, model = Module 2 [(''layer'', Module 2 [])]\<rparr>"
  have run: "generate tokenizer0 generator0 pipeline1 [(''hi'', ''d1'')]
      = (fst (generate tokenizer0 generator0 pipeline1 [(''hi'', ''d1'')]), Inr [[2, 2]])"
    by (simp add: sample_defs)
  have pool: "model_pool pipeline1 (snd (last [(''hi'', ''d1'')])) = Some ?ckpt"
    by (simp add: sample_defs)
  have p0: "payload (base_model pipeline1) = 0"
    by (simp add: sample_defs)
  from generate_never_unbinds [OF run] pool p0 show ?thesis
    by (simp add: setattr_other_attributes)
qed

text \<open>
  The round trip stated by claim C1 fails: one request against a loaded checkpoint
  returns its output and leaves the base model with the attribute \<^verbatim>\<open>delta\<close>
  that it did not have before.
\<close>

theorem generate_unbind_roundtrip_counterexample:
  "snd (generate tokenizer0 generator0 pipeline1 [(''hi'', ''d1'')]) = Inr [[2, 2]] \<and>
   base_model pipeline1 = Module 0 [(''layer'', Module 7 [])] \<and>
   base_model (fst (generate tokenizer0 generator0 pipeline1 [(''hi'', ''d1'')]))
     = Module 0 [(''layer'', Module 7 []), (''delta'', Module 2 [])] \<and>
   base_model (fst (generate tokenizer0 generator0 pipeline1 [(''hi'', ''d1'')]))
     \<noteq> base_model pipeline1"
  by (simp add: sample_defs)

section \<open>One forward pass for the whole batch\<close>

text \<open>
  Claim C2, as the code has it. \<^verbatim>\<open>generate\<close> does not partition the requests:
  whatever their delta identifiers, a call whose bindings all succeed runs exactly
  one forward pass, on the one batch of all the prompts in input order, and a call
  whose binding fails runs none.
\<close>

theorem generate_single_forward_pass:
  "forward_calls (fst (generate tok gen self queries)) =
     (case snd (generate tok gen self queries) of
        Inl e \<Rightarrow> forward_calls self
      | Inr out \<Rightarrow> forward_calls self @
          [(base_model (fst (generate tok gen self queries)),
            prepare_batch queries tok (base_model self) (None :: unit option))]) \<and>
   rows (input_ids (prepare_batch queries tok (base_model self) (None :: unit option)))
     = rows (input_ids (tok (map fst queries)))"
  by (auto simp: generate_def prepare_batch_def to_device_def Let_def
      split: prod.splits option.splits)

text \<open>
  The split stated by claim C2 fails: four requests over two distinct delta
  identifiers run as one forward pass over four rows, not as two sub-batches.
\<close>

theorem generate_sub_batches_counterexample:
  "length mixed_queries = 4 \<and>
   remdups (map snd mixed_queries) = [''d1'', ''d22''] \<and>
   snd (generate tokenizer0 generator0 pipeline2 mixed_queries) = Inr [[1, 2], [2, 2], [3, 2], [4, 2]] \<and>
   length (forward_calls (fst (generate tokenizer0 generator0 pipeline2 mixed_queries))) = 1 \<and>
   map (rows \<circ> input_ids \<circ> snd) (forward_calls (fst (generate tokenizer0 generator0 pipeline2 mixed_queries)))
     = [[[1], [2], [3], [4]]]"
  by (simp add: sample_defs)

section \<open>Outputs are aligned with the prompts, under the last binding\<close>




section \<open>Loading a delta\<close>

text \<open>
  Claim C4, as the code has it. \<^verbatim>\<open>load_delta\<close> calls the load adapter on every
  call: two loads of one identifier are two adapter calls, and the second stores a
  new object (the next object identity) with the contents the adapter returns for
  that path; the keys of the pool are those after the first load.
\<close>

theorem load_delta_reloads:
  "adapter_calls (load_delta fc (load_delta fc self d) d) = adapter_calls self @ [d, d] \<and>
   model_pool (load_delta fc self d) d
     = Some \<lparr>obj_id = length (adapter_calls self), model = fc d False\<rparr> \<and>
   model_pool (load_delta fc (load_delta fc self d) d) d
     = Some \<lparr>obj_id = Suc (length (adapter_calls self)), model = fc d False\<rparr> \<and>
   dom (model_pool (load_delta fc (load_delta fc self d) d)) = dom (model_pool (load_delta fc self d))"
  by (simp add: load_delta_def)

text \<open>
  The idempotence stated by claim C4 fails: after two loads of \<^verbatim>\<open>d1\<close> the
  adapter was called twice, and the pool holds the second object, not the first.
\<close>

theorem load_delta_idempotent_counterexample:
  "adapter_calls (load_delta from_compressed0 (load_delta from_compressed0 pipeline0 ''d1'') ''d1'')
     = [''d1'', ''d1''] \<and>
   map_option obj_id (model_pool (load_delta from_compressed0 pipeline0 ''d1'') ''d1'') = Some 0 \<and>
   map_option obj_id
     (model_pool (load_delta from_compressed0 (load_delta from_compressed0 pipeline0 ''d1'') ''d1'')
        ''d1'') = Some 1"
  by (simp add: load_delta_def pipeline0_def)

text \<open>
  Claim C5, as the code has it. \<^verbatim>\<open>load_delta\<close> never evicts and has no
  capacity error: after a load the keys of the pool are the former keys and the new
  identifier, every other entry is as before, and a new identifier makes the pool
  one entry larger, whatever its size.
\<close>

theorem load_delta_never_evicts:
  "dom (model_pool (load_delta fc self d)) = insert d (dom (model_pool self)) \<and>
   (\<forall>d'. d' \<noteq> d \<longrightarrow> model_pool (load_delta fc self d) d' = model_pool self d') \<and>
   (finite (dom (model_pool self)) \<and> d \<notin> dom (model_pool self) \<longrightarrow>
      card (dom (model_pool (load_delta fc self d))) = Suc (card (dom (model_pool self))))"
  by (simp add: load_delta_def)

theorem load_delta_never_evicts_witness:
  "model_pool (load_delta from_compressed0 pipeline2 ''d333'') ''d1'' = model_pool pipeline2 ''d1'' \<and>
   card (dom (model_pool (load_delta from_compressed0 pipeline2 ''d333''))) = 3"
proof -
  have ne: "''d1'' \<noteq> ''d333''" by simp
  have d2: "dom (model_pool pipeline2) = {''d1'', ''d22''}"
    by (auto simp: pipeline2_def pipeline1_def pipeline0_def load_delta_def)
  have fin: "finite (dom (model_pool pipeline2)) \<and> ''d333'' \<notin> dom (model_pool pipeline2)"
    by (simp add: d2)
  have c2: "card (dom (model_pool pipeline2)) = 2"
    by (simp add: d2)
  from load_delta_never_evicts [of from_compressed0 pipeline2 "''d333''"] ne fin c2
  show ?thesis by simp
qed

text \<open>
  The eviction stated by claim C5 fails for a bound of two resident deltas: after
  three loads of distinct identifiers the pool holds all three, the first two as
  they were.
\<close>

theorem load_delta_eviction_counterexample:
  "dom (model_pool pipeline3) = {''d1'', ''d22'', ''d333''} \<and>
   card (dom (model_pool pipeline3)) = 3 \<and>
   (2::nat) < card (dom (model_pool pipeline3)) \<and>
   model_pool pipeline3 ''d1'' = model_pool pipeline2 ''d1'' \<and>
   model_pool pipeline3 ''d22'' = model_pool pipeline2 ''d22'' \<and>
   model_pool pipeline3 ''d1'' \<noteq> None"
proof -
  have d3: "dom (model_pool pipeline3) = {''d1'', ''d22'', ''d333''}"
    by (auto simp: pipeline3_def pipeline2_def pipeline1_def pipeline0_def load_delta_def)
  have c3: "card (dom (model_pool pipeline3)) = 3"
    by (simp add: d3)
  then have "(2::nat) < card (dom (model_pool pipeline3))"
    by simp
  moreover have "model_pool pipeline3 ''d1'' = model_pool pipeline2 ''d1'' \<and>
      model_pool pipeline3 ''d22'' = model_pool pipeline2 ''d22'' \<and>
      model_pool pipeline3 ''d1'' \<noteq> None"
    by (simp add: pipeline3_def pipeline2_def pipeline1_def pipeline0_def load_delta_def)
  ultimately show ?thesis using d3 c3 by blast
qed

section \<open>A checkpoint that does not fit the base model\<close>

text \<open>
  Claim C6, as the code has it. When the checkpoint of the first request holds a
  name that does not resolve in the base model (and does not start with the atom
  \<^verbatim>\<open>delta\<close>), \<^verbatim>\<open>generate\<close> fails with the library's
  \<^verbatim>\<open>AttributeError\<close>, runs no forward pass, and undoes nothing: the base model
  is left with the attribute \<^verbatim>\<open>delta\<close> holding a module of that checkpoint.
\<close>

theorem generate_unresolved_name_fails:
  assumes "model_pool self d = Some ckpt"
    and "(key, m) \<in> set (named_modules (model ckpt) [])"
    and "\<not> resolves (base_model self) key"
    and "first_atom key \<noteq> ''delta''"
  shows "\<exists>item m'. m' \<in> snd ` set (named_modules (model ckpt) []) \<and>
     generate tok gen self ((prompt, d) # rest)
       = (self\<lparr>base_model := setattr (base_model self) ''delta'' m'\<rparr>, Inl (AttributeError item)) \<and>
     map_of (children (base_model (fst (generate tok gen self ((prompt, d) # rest))))) ''delta'' = Some m'"
proof -
  from bind_checkpoint_fails [OF assms(2,3,4)]
  obtain item m' where m': "m' \<in> snd ` set (named_modules (model ckpt) [])"
    and res: "bind_modules (base_model self) (named_modules (model ckpt) [])
        = (setattr (base_model self) ''delta'' m', Some (AttributeError item))"
    by blast
  have "generate tok gen self ((prompt, d) # rest)
       = (self\<lparr>base_model := setattr (base_model self) ''delta'' m'\<rparr>, Inl (AttributeError item))"
    by (simp add: generate_def Let_def assms(1) res)
  with m' show ?thesis by (auto simp: map_of_setattr_same)
qed

theorem generate_unresolved_name_fails_witness:
  "\<exists>item m'. generate tokenizer0 generator0 pipeline_mismatch [(''hi'', ''dx'')]
       = (pipeline_mismatch\<lparr>base_model := setattr (base_model pipeline_mismatch) ''delta'' m'\<rparr>,
          Inl (AttributeError item))"
proof -
  let ?ckpt = "\<lparr>obj_id = 0, model = Module 2 [(''mlp'', Module 2 [])]\<rparr>"
  have 1: "model_pool pipeline_mismatch ''dx'' = Some ?ckpt"
    by (simp add: pipeline_mismatch_def load_delta_def pipeline0_def from_compressed1_def)
  have 2: "(''mlp'', Module 2 []) \<in> set (named_modules (model ?ckpt) [])"
    by simp
  have 3: "\<not> resolves (base_model pipeline_mismatch) ''mlp''"
    by (simp add: resolves_def sample_defs)
  have 4: "first_atom ''mlp'' \<noteq> ''delta''"
    by (simp add: first_atom_def)
  from generate_unresolved_name_fails [OF 1 2 3 4, of tokenizer0 generator0 "''hi''" "[]"]
  show ?thesis by blast
qed

text \<open>
  The claim's "left unmodified" fails: binding a checkpoint whose layer is named
  \<^verbatim>\<open>mlp\<close> against a base model without that name raises
  \<^verbatim>\<open>AttributeError\<close> after the checkpoint's root module was assigned to the
  base model.
\<close>

theorem generate_topology_mismatch_counterexample:
  "snd (generate tokenizer0 generator0 pipeline_mismatch [(''hi'', ''dx'')]) = Inl (AttributeError ''mlp'') \<and>
   base_model pipeline_mismatch = Module 0 [(''layer'', Module 7 [])] \<and>
   base_model (fst (generate tokenizer0 generator0 pipeline_mismatch [(''hi'', ''dx'')]))
     = Module 0 [(''layer'', Module 7 []), (''delta'', Module 2 [(''mlp'', Module 2 [])])] \<and>
   base_model (fst (generate tokenizer0 generator0 pipeline_mismatch [(''hi'', ''dx'')]))
     \<noteq> base_model pipeline_mismatch \<and>
   forward_calls (fst (generate tokenizer0 generator0 pipeline_mismatch [(''hi'', ''dx'')])) = []"
  by (simp add: sample_defs)

text \<open>
  A name that starts with \<^verbatim>\<open>delta\<close> can resolve through the assignment made
  just before it, so it is left out of the statement above.
\<close>

lemma bind_resolves_through_delta:
  "\<not> resolves (Module 0 []) ''delta'' \<and>
   bind_modules (Module 0 []) (named_modules (Module 1 [(''delta'', Module 2 [])]) [])
     = (Module 0 [(''delta'', Module 2 [])], None)"
  by (simp add: resolves_def priv_get_submodules_def get_submodule_def setattr_def)

section \<open>No bound on the batch\<close>

text \<open>
  Claim C7, as the code has it. \<^verbatim>\<open>prepare_batch\<close> never fails on the number of
  requests: for every list of requests it returns the tokenizer's batch for the
  prompts in input order, moved to the GPU, and \<^verbatim>\<open>generate\<close> goes on to the
  binding loops with it.
\<close>

theorem prepare_batch_unbounded:
  "input_ids (prepare_batch inputs tok mdl lora_map)
     = to_device (input_ids (tok (map fst inputs))) CUDA \<and>
   attention_mask (prepare_batch inputs tok mdl lora_map)
     = to_device (attention_mask (tok (map fst inputs))) CUDA \<and>
   snd (generate tok gen self inputs)
     = (case bind_deltas (model_pool self) (base_model self) (map snd inputs) of
          (base', Some e) \<Rightarrow> Inl e
        | (base', None) \<Rightarrow>
            Inr (gen base' (prepare_batch inputs tok (base_model self) (None :: unit option))))"
  by (auto simp: prepare_batch_def Let_def generate_def split: prod.splits option.splits)

text \<open>
  The size error stated by claim C7 fails for a maximum batch size of one: five
  requests are tokenized into five rows and generated in one call.
\<close>

theorem prepare_batch_too_large_counterexample:
  "length same_delta_queries = 5 \<and> (1::nat) < length same_delta_queries \<and>
   rows (input_ids (prepare_batch same_delta_queries tokenizer0 base0 (None :: unit option)))
     = [[1], [2], [3], [4], [5]] \<and>
   snd (generate tokenizer0 generator0 pipeline1 same_delta_queries)
     = Inr [[1, 2], [2, 2], [3, 2], [4, 2], [5, 2]]"
  by (simp add: sample_defs)

end
